theory Spec2Isabelle
  imports Main
begin

section \<open>The lexical analyzer of \<^verbatim>\<open>lexical_analyzer.py\<close>\<close>

text \<open>
  A shallow embedding of \<^verbatim>\<open>src/lexical_analyzer.py\<close>. A Python \<^verbatim>\<open>str\<close> is modelled as
  a \<^typ>\<open>string\<close> whose elements are single code points in the range 0..255, so that
  \<^const>\<open>length\<close> and indexing count what Python's \<^verbatim>\<open>len\<close> and \<^verbatim>\<open>s[i]\<close> count.
  The object state \<^verbatim>\<open>self\<close> is passed explicitly and returned updated; the exception
  \<^verbatim>\<open>UnknownLexemeException\<close> is returned as a value next to the state the analyzer is
  left in, since the caller in \<^verbatim>\<open>main.py\<close> reads \<^verbatim>\<open>analyzer.lexemes\<close> after catching it.
\<close>

subsection \<open>Token kinds: \<^verbatim>\<open>class LexemeType(Enum)\<close>\<close>

text \<open>
  The members keep their names; \<^verbatim>\<open>If\<close> and \<^verbatim>\<open>Not\<close> clash with constants of HOL and
  carry the suffix \<^verbatim>\<open>_lex\<close>.
\<close>

datatype LexemeType =
    Dim | Print | Const | Option | Explicit | Set | If_lex | Else | Sub | End | For | Each | Next
  | Plus | Minus | Multiply | Exponent | Divide | IntegerDivide | Mod
  | Not_lex | And | Or | Xor | AndAlso | OrElse
  | Assign | Semicolon | DoubleQuote | Dot | Comma | OpeningBracket | ClosingBracket
  | Identifier | Number

text \<open>The \<^verbatim>\<open>.value\<close> of each member.\<close>

fun enum_value :: "LexemeType \<Rightarrow> string" where
  "enum_value Dim = ''Dim''"
| "enum_value Print = ''Print''"
| "enum_value Const = ''Const''"
| "enum_value Option = ''Option''"
| "enum_value Explicit = ''Explicit''"
| "enum_value Set = ''Set''"
| "enum_value If_lex = ''If''"
| "enum_value Else = ''Else''"
| "enum_value Sub = ''Sub''"
| "enum_value End = ''End''"
| "enum_value For = ''For''"
| "enum_value Each = ''Each''"
| "enum_value Next = ''Next''"
| "enum_value Plus = ''+''"
| "enum_value Minus = ''-''"
| "enum_value Multiply = ''*''"
| "enum_value Exponent = ''^''"
| "enum_value Divide = ''/''"
| "enum_value IntegerDivide = [CHR 0x5C]"
| "enum_value Mod = ''Mod''"
| "enum_value Not_lex = ''Not''"
| "enum_value And = ''And''"
| "enum_value Or = ''Or''"
| "enum_value Xor = ''Xor''"
| "enum_value AndAlso = ''AndAlso''"
| "enum_value OrElse = ''OrElse''"
| "enum_value Assign = ''=''"
| "enum_value Semicolon = '';''"
| "enum_value DoubleQuote = [CHR 0x22]"
| "enum_value Dot = ''.''"
| "enum_value Comma = '',''"
| "enum_value OpeningBracket = ''(''"
| "enum_value ClosingBracket = '')''"
| "enum_value Identifier = ''[a-zA-Z_][a-zA-Z0-9_]*''"
| "enum_value Number = ''(0|[1-9][0-9]*)''"

subsection \<open>Exceptions and lexemes\<close>

text \<open>
  \<^verbatim>\<open>UnknownLexemeException\<close> carries \<^verbatim>\<open>pos\<close>; its \<^verbatim>\<open>msg\<close> is a rendering of \<^verbatim>\<open>pos\<close> and
  is not modelled.
\<close>

datatype UnknownLexemeException = UnknownLexemeException (pos: nat)

text \<open>
  \<^verbatim>\<open>class Lexeme\<close>. The fields \<^verbatim>\<open>offset\<close> and \<^verbatim>\<open>length\<close> carry the suffix \<^verbatim>\<open>_lex\<close>:
  \<^verbatim>\<open>offset\<close> is also a field of the analyzer and \<^verbatim>\<open>length\<close> a constant of HOL.
\<close>

record Lexeme =
  lexeme_type :: LexemeType
  lexeme_value :: string
  offset_lex :: nat
  length_lex :: nat

subsection \<open>The catalog\<close>

text \<open>
  \<^verbatim>\<open>StaticLexemeDefinition\<close>: the kind, its literal (\<^verbatim>\<open>representation\<close>, the enum value)
  and the keyword flag, which defaults to \<^verbatim>\<open>False\<close>.
\<close>

record StaticLexemeDefinition =
  static_type :: LexemeType
  is_keyword :: bool

definition representation :: "StaticLexemeDefinition \<Rightarrow> string" where
  "representation d = enum_value (static_type d)"

definition keyword :: "LexemeType \<Rightarrow> StaticLexemeDefinition" where
  "keyword t = \<lparr>static_type = t, is_keyword = True\<rparr>"

definition operator :: "LexemeType \<Rightarrow> StaticLexemeDefinition" where
  "operator t = \<lparr>static_type = t, is_keyword = False\<rparr>"

definition static_lexeme_definitions :: "StaticLexemeDefinition list" where
  "static_lexeme_definitions =
    [keyword Dim, keyword Print, keyword Const, keyword Option, keyword Explicit, keyword Set,
     keyword If_lex, keyword Else, keyword For, keyword Each, keyword End,
     operator Plus, operator Minus, operator Multiply, operator Exponent, operator Divide,
     operator IntegerDivide, operator Mod,
     operator Not_lex, operator And, operator Or, operator Xor, operator AndAlso, operator OrElse,
     operator Assign, operator Semicolon, operator DoubleQuote, operator Dot, operator Comma,
     operator OpeningBracket, operator ClosingBracket]"

subsection \<open>The two compiled patterns\<close>

definition in_range :: "char \<Rightarrow> char \<Rightarrow> char \<Rightarrow> bool" where
  "in_range lo hi c = ((of_char lo :: nat) \<le> of_char c \<and> (of_char c :: nat) \<le> of_char hi)"

text \<open>The character classes \<^verbatim>\<open>[a-zA-Z_]\<close>, \<^verbatim>\<open>[a-zA-Z0-9_]\<close>, \<^verbatim>\<open>[1-9]\<close> and \<^verbatim>\<open>[0-9]\<close>.\<close>

definition ident_start :: "char \<Rightarrow> bool" where
  "ident_start c = (in_range CHR ''a'' CHR ''z'' c \<or> in_range CHR ''A'' CHR ''Z'' c \<or> c = CHR ''_'')"

definition ident_char :: "char \<Rightarrow> bool" where
  "ident_char c = (in_range CHR ''a'' CHR ''z'' c \<or> in_range CHR ''A'' CHR ''Z'' c
     \<or> in_range CHR ''0'' CHR ''9'' c \<or> c = CHR ''_'')"

definition digit19 :: "char \<Rightarrow> bool" where
  "digit19 c = in_range CHR ''1'' CHR ''9'' c"

definition digit09 :: "char \<Rightarrow> bool" where
  "digit09 c = in_range CHR ''0'' CHR ''9'' c"

text \<open>
  A compiled pattern is modelled by its anchored matcher: given the text that starts at
  a position, the length of the match the backtracking engine of \<^verbatim>\<open>re\<close> finds there, if
  any. \<^verbatim>\<open>[a-zA-Z_][a-zA-Z0-9_]*\<close> takes one start character and then, greedily, every
  following identifier character. \<^verbatim>\<open>(0|[1-9][0-9]*)\<close> tries the alternative \<^verbatim>\<open>0\<close> first
  and stops there when it matches; otherwise a digit 1..9 and, greedily, the digits
  that follow.
\<close>

fun re_Identifier :: "string \<Rightarrow> nat option" where
  "re_Identifier [] = None"
| "re_Identifier (c # cs) =
     (if ident_start c then Some (1 + length (takeWhile ident_char cs)) else None)"

fun re_Number :: "string \<Rightarrow> nat option" where
  "re_Number [] = None"
| "re_Number (c # cs) =
     (if c = CHR ''0'' then Some 1
      else if digit19 c then Some (1 + length (takeWhile digit09 cs))
      else None)"

text \<open>
  \<^verbatim>\<open>pattern.search(string, pos)\<close>: the start positions \<^verbatim>\<open>pos\<close>, \<^verbatim>\<open>pos + 1\<close>, ... are tried in
  turn and the span of the first match is returned. \<open>search_from m s i\<close> scans the text
  \<open>s\<close> that starts at position \<open>i\<close>.
\<close>

fun search_from :: "(string \<Rightarrow> nat option) \<Rightarrow> string \<Rightarrow> nat \<Rightarrow> (nat \<times> nat) option" where
  "search_from m [] i = (case m [] of None \<Rightarrow> None | Some l \<Rightarrow> Some (i, i + l))"
| "search_from m (c # cs) i =
     (case m (c # cs) of
        Some l \<Rightarrow> Some (i, i + l)
      | None \<Rightarrow> search_from m cs (Suc i))"

definition search :: "(string \<Rightarrow> nat option) \<Rightarrow> string \<Rightarrow> nat \<Rightarrow> (nat \<times> nat) option" where
  "search m s start = (let p = min start (length s) in search_from m (drop p s) p)"

text \<open>\<^verbatim>\<open>DynamicLexemeDefinition\<close>: the kind and the compiled pattern.\<close>

record DynamicLexemeDefinition =
  dynamic_type :: LexemeType
  pattern :: "string \<Rightarrow> nat option"

definition dynamic_lexeme_definitions :: "DynamicLexemeDefinition list" where
  "dynamic_lexeme_definitions =
    [\<lparr>dynamic_type = Identifier, pattern = re_Identifier\<rparr>,
     \<lparr>dynamic_type = Number, pattern = re_Number\<rparr>]"

subsection \<open>Built-in string operations\<close>

text \<open>
  \<^verbatim>\<open>s.find(sub, start, end)\<close> for non-negative \<^verbatim>\<open>start\<close> and \<^verbatim>\<open>end\<close>: the lowest index
  \<open>i \<ge> start\<close> at which \<open>sub\<close> occurs inside \<^verbatim>\<open>s[start:end]\<close>, or \<open>-1\<close>.
\<close>

definition str_find :: "string \<Rightarrow> string \<Rightarrow> nat \<Rightarrow> nat \<Rightarrow> int" where
  "str_find s sub start stop =
     (let e = min stop (length s) in
      if start + length sub \<le> e then
        (case List.find (\<lambda>i. take (length sub) (drop i s) = sub)
                [start ..< Suc (e - length sub)] of
           None \<Rightarrow> - 1
         | Some i \<Rightarrow> int i)
      else - 1)"

text \<open>
  \<^verbatim>\<open>c.isalnum()\<close> for a code point below 256: the ASCII digits and letters, and the
  letters and numeric characters of Latin-1 (\<^verbatim>\<open>U+00AA\<close>, \<^verbatim>\<open>U+00B2\<close>, \<^verbatim>\<open>U+00B3\<close>, \<^verbatim>\<open>U+00B5\<close>,
  \<^verbatim>\<open>U+00B9\<close>, \<^verbatim>\<open>U+00BA\<close>, \<^verbatim>\<open>U+00BC\<close>..\<^verbatim>\<open>U+00BE\<close>, \<^verbatim>\<open>U+00C0\<close>..\<^verbatim>\<open>U+00FF\<close> without the signs
  \<^verbatim>\<open>U+00D7\<close> and \<^verbatim>\<open>U+00F7\<close>).
\<close>

definition isalnum :: "char \<Rightarrow> bool" where
  "isalnum c =
     (let n = (of_char c :: nat) in
      (48 \<le> n \<and> n \<le> 57) \<or> (65 \<le> n \<and> n \<le> 90) \<or> (97 \<le> n \<and> n \<le> 122)
      \<or> n = 170 \<or> n = 178 \<or> n = 179 \<or> n = 181 \<or> n = 185 \<or> n = 186
      \<or> (188 \<le> n \<and> n \<le> 190) \<or> (192 \<le> n \<and> n \<le> 214)
      \<or> (216 \<le> n \<and> n \<le> 246) \<or> (248 \<le> n \<and> n \<le> 255))"

subsection \<open>\<^verbatim>\<open>class LexicalAnalyzer\<close>\<close>

record LexicalAnalyzer =
  source :: string
  offset :: nat
  lexemes :: "Lexeme list"

definition space_chars :: "char list" where
  "space_chars = [CHR '' '', CHR 0x0A, CHR 0x0D, CHR 0x09]"

text \<open>\<^verbatim>\<open>__init__\<close>.\<close>

definition new_analyzer :: "string \<Rightarrow> LexicalAnalyzer" where
  "new_analyzer src = \<lparr>source = src, offset = 0, lexemes = []\<rparr>"

definition in_bounds :: "LexicalAnalyzer \<Rightarrow> bool" where
  "in_bounds a = (offset a < length (source a))"

function skip_spaces :: "LexicalAnalyzer \<Rightarrow> LexicalAnalyzer" where
  "skip_spaces a =
     (if in_bounds a \<and> source a ! offset a \<in> set space_chars
      then skip_spaces (a\<lparr>offset := offset a + 1\<rparr>)
      else a)"
  by pat_completeness auto
termination
  by (relation "measure (\<lambda>a. length (source a) - offset a)") (auto simp: in_bounds_def)

declare skip_spaces.simps [simp del]

text \<open>
  \<^verbatim>\<open>process_static_lexeme\<close>: the \<^verbatim>\<open>for\<close> loop over the static definitions, with its two
  \<^verbatim>\<open>continue\<close> branches and its \<^verbatim>\<open>return\<close> from inside the loop. The lexeme is built after
  \<^verbatim>\<open>self.offset += length\<close> and reads \<^verbatim>\<open>self.offset\<close>.
\<close>

fun static_loop :: "StaticLexemeDefinition list \<Rightarrow> LexicalAnalyzer \<Rightarrow> LexicalAnalyzer \<times> Lexeme option" where
  "static_loop [] a = (a, None)"
| "static_loop (lexeme_def # rest) a =
     (let rep = representation lexeme_def; len = length rep in
      if offset a + len > length (source a)
         \<or> str_find (source a) rep (offset a) (offset a + len) = - 1
      then static_loop rest a
      else if offset a + len < length (source a) \<and> is_keyword lexeme_def
              \<and> (let next_char = source a ! (offset a + len)
                  in next_char = CHR ''_'' \<or> isalnum next_char)
      then static_loop rest a
      else
        (let a' = a\<lparr>offset := offset a + len\<rparr> in
         (a', Some \<lparr>lexeme_type = static_type lexeme_def, lexeme_value = rep,
                    offset_lex = offset a', length_lex = len\<rparr>)))"

definition process_static_lexeme :: "LexicalAnalyzer \<Rightarrow> LexicalAnalyzer \<times> Lexeme option" where
  "process_static_lexeme a = static_loop static_lexeme_definitions a"

text \<open>
  \<^verbatim>\<open>process_dynamic_lexeme\<close>: the \<^verbatim>\<open>for\<close> loop over the dynamic definitions. \<^verbatim>\<open>m.group(0)\<close> is
  the text of the span.
\<close>

fun dynamic_loop :: "DynamicLexemeDefinition list \<Rightarrow> LexicalAnalyzer \<Rightarrow> LexicalAnalyzer \<times> Lexeme option" where
  "dynamic_loop [] a = (a, None)"
| "dynamic_loop (lexeme_def # rest) a =
     (case search (pattern lexeme_def) (source a) (offset a) of
        None \<Rightarrow> dynamic_loop rest a
      | Some span \<Rightarrow>
          (let match_length = snd span - fst span;
               a' = a\<lparr>offset := offset a + match_length\<rparr> in
           (a', Some \<lparr>lexeme_type = dynamic_type lexeme_def,
                      lexeme_value = take match_length (drop (fst span) (source a)),
                      offset_lex = offset a', length_lex = match_length\<rparr>)))"

definition process_dynamic_lexeme :: "LexicalAnalyzer \<Rightarrow> LexicalAnalyzer \<times> Lexeme option" where
  "process_dynamic_lexeme a = dynamic_loop dynamic_lexeme_definitions a"

subsection \<open>What the matchers do to the analyzer\<close>

text \<open>
  These facts are needed before the driver loop can be defined: \<^verbatim>\<open>parse\<close> terminates
  because every match moves the offset forward.
\<close>

lemma skip_spaces_source: "source (skip_spaces a) = source a"
  by (induction a rule: skip_spaces.induct) (subst skip_spaces.simps, simp)

lemma skip_spaces_lexemes: "lexemes (skip_spaces a) = lexemes a"
  by (induction a rule: skip_spaces.induct) (subst skip_spaces.simps, simp)

lemma skip_spaces_offset: "offset a \<le> offset (skip_spaces a)"
proof (induction a rule: skip_spaces.induct)
  case (1 a)
  show ?case
  proof (cases "in_bounds a \<and> source a ! offset a \<in> set space_chars")
    case True
    with 1 have "offset a + 1 \<le> offset (skip_spaces (a\<lparr>offset := offset a + 1\<rparr>))" by simp
    with True show ?thesis by (subst skip_spaces.simps) simp
  next
    case False
    then show ?thesis by (subst skip_spaces.simps) auto
  qed
qed

lemma str_find_exact:
  "n + length sub \<le> length s \<Longrightarrow>
   (str_find s sub n (n + length sub) = - 1) = (take (length sub) (drop n s) \<noteq> sub)"
  by (auto simp: str_find_def Let_def split: option.splits)

text \<open>
  \<open>static_accepts a d\<close> says that the loop of \<^verbatim>\<open>process_static_lexeme\<close> does not
  \<^verbatim>\<open>continue\<close> at the definition \<open>d\<close>: the literal fits, it is the text at the offset,
  and the keyword boundary check does not reject it. \<open>static_result a d\<close> is what the loop
  then returns. The loop returns the result of the first definition it accepts
  (\<open>static_loop_find\<close>).
\<close>

definition static_accepts :: "LexicalAnalyzer \<Rightarrow> StaticLexemeDefinition \<Rightarrow> bool" where
  "static_accepts a d =
     (let len = length (representation d) in
      offset a + len \<le> length (source a)
      \<and> take len (drop (offset a) (source a)) = representation d
      \<and> \<not> (offset a + len < length (source a) \<and> is_keyword d
           \<and> (source a ! (offset a + len) = CHR ''_'' \<or> isalnum (source a ! (offset a + len)))))"

definition static_result :: "LexicalAnalyzer \<Rightarrow> StaticLexemeDefinition \<Rightarrow> LexicalAnalyzer \<times> Lexeme option" where
  "static_result a d =
     (a\<lparr>offset := offset a + length (representation d)\<rparr>,
      Some \<lparr>lexeme_type = static_type d, lexeme_value = representation d,
            offset_lex = offset a + length (representation d),
            length_lex = length (representation d)\<rparr>)"

lemma static_loop_find:
  "static_loop ds a =
     (case List.find (static_accepts a) ds of None \<Rightarrow> (a, None) | Some d \<Rightarrow> static_result a d)"
proof (induction ds)
  case Nil
  show ?case by simp
next
  case (Cons d ds)
  show ?case
  proof (cases "offset a + length (representation d) \<le> length (source a)")
    case True
    then show ?thesis
      using Cons str_find_exact [OF True]
      by (auto simp: static_accepts_def static_result_def Let_def)
  next
    case False
    then show ?thesis using Cons by (simp add: static_accepts_def Let_def)
  qed
qed

lemma representation_nonempty:
  "d \<in> set static_lexeme_definitions \<Longrightarrow> representation d \<noteq> []"
  by (auto simp: static_lexeme_definitions_def representation_def keyword_def operator_def)

lemma process_static_lexeme_None: "process_static_lexeme a = (a', None) \<Longrightarrow> a' = a"
  by (auto simp: process_static_lexeme_def static_loop_find static_result_def split: option.splits)

lemma process_static_lexeme_Some:
  assumes "process_static_lexeme a = (a', Some l)"
  shows "source a' = source a" and "lexemes a' = lexemes a" and "offset a < offset a'"
    and "offset a' \<le> length (source a)"
proof -
  from assms obtain d where f: "List.find (static_accepts a) static_lexeme_definitions = Some d"
    and r: "static_result a d = (a', Some l)"
    by (auto simp: process_static_lexeme_def static_loop_find split: option.splits)
  from f have d: "d \<in> set static_lexeme_definitions" and acc: "static_accepts a d"
    by (auto simp: find_Some_iff)
  from d have pos: "0 < length (representation d)" by (simp add: representation_nonempty)
  from r have a': "a' = a\<lparr>offset := offset a + length (representation d)\<rparr>"
    by (simp add: static_result_def)
  from acc have le: "offset a + length (representation d) \<le> length (source a)"
    by (simp add: static_accepts_def Let_def)
  show "source a' = source a" using a' by simp
  show "lexemes a' = lexemes a" using a' by simp
  show "offset a < offset a'" using a' pos by simp
  show "offset a' \<le> length (source a)" using a' le by simp
qed

lemma search_from_span:
  assumes "search_from m s i = Some (st, e)"
    and "\<And>t l. m t = Some l \<Longrightarrow> 0 < l \<and> l \<le> length t"
  shows "i \<le> st \<and> st < e \<and> e \<le> i + length s"
  using assms(1)
proof (induction s arbitrary: i)
  case Nil
  then show ?case using assms(2) [of "[]"] by (auto split: option.splits)
next
  case (Cons c cs)
  show ?case
  proof (cases "m (c # cs)")
    case None
    with Cons.prems have "search_from m cs (Suc i) = Some (st, e)" by simp
    from Cons.IH [OF this] show ?thesis by simp
  next
    case (Some l)
    with Cons.prems assms(2) [OF Some] show ?thesis by auto
  qed
qed

lemma re_Identifier_bounds: "re_Identifier t = Some l \<Longrightarrow> 0 < l \<and> l \<le> length t"
  by (cases t) (auto split: if_splits intro: le_trans [OF length_takeWhile_le])

lemma re_Number_bounds: "re_Number t = Some l \<Longrightarrow> 0 < l \<and> l \<le> length t"
  by (cases t) (auto split: if_splits intro: le_trans [OF length_takeWhile_le])

lemma pattern_bounds:
  "d \<in> set dynamic_lexeme_definitions \<Longrightarrow> pattern d t = Some l \<Longrightarrow> 0 < l \<and> l \<le> length t"
  by (auto simp: dynamic_lexeme_definitions_def dest: re_Identifier_bounds re_Number_bounds)

lemma search_span:
  assumes "search (pattern d) s n = Some (st, e)" and "d \<in> set dynamic_lexeme_definitions"
    and "n \<le> length s"
  shows "n \<le> st \<and> st < e \<and> e \<le> length s"
proof -
  from assms(1,3) have "search_from (pattern d) (drop n s) n = Some (st, e)"
    by (simp add: search_def Let_def min_def)
  from search_from_span [OF this pattern_bounds [OF assms(2)]] assms(3)
  show ?thesis by simp
qed

lemma dynamic_loop_None: "dynamic_loop ds a = (a', None) \<Longrightarrow> a' = a"
  by (induction ds) (auto simp: Let_def split: option.splits)

lemma dynamic_loop_Some:
  assumes "dynamic_loop ds a = (a', Some l)" and "set ds \<subseteq> set dynamic_lexeme_definitions"
    and "offset a \<le> length (source a)"
  shows "source a' = source a \<and> lexemes a' = lexemes a \<and> offset a < offset a'
     \<and> offset a' \<le> length (source a)"
  using assms
proof (induction ds)
  case Nil
  then show ?case by simp
next
  case (Cons d ds)
  show ?case
  proof (cases "search (pattern d) (source a) (offset a)")
    case None
    with Cons show ?thesis by simp
  next
    case (Some span)
    obtain st e where span: "span = (st, e)" by (cases span)
    from Cons.prems(2) have "d \<in> set dynamic_lexeme_definitions" by simp
    from search_span [OF Some [unfolded span] this Cons.prems(3)]
    have "offset a \<le> st" "st < e" "e \<le> length (source a)" by simp_all
    with Cons.prems(1) Some span show ?thesis by (auto simp: Let_def)
  qed
qed

lemma process_dynamic_lexeme_None: "process_dynamic_lexeme a = (a', None) \<Longrightarrow> a' = a"
  unfolding process_dynamic_lexeme_def by (rule dynamic_loop_None)

lemma process_dynamic_lexeme_Some:
  assumes "process_dynamic_lexeme a = (a', Some l)" and "offset a \<le> length (source a)"
  shows "source a' = source a" and "lexemes a' = lexemes a" and "offset a < offset a'"
    and "offset a' \<le> length (source a)"
  using dynamic_loop_Some [OF assms(1) [unfolded process_dynamic_lexeme_def] subset_refl assms(2)]
  by simp_all

subsection \<open>The driver loop\<close>

text \<open>
  \<^verbatim>\<open>parse\<close>: the \<^verbatim>\<open>while\<close> loop. The result is the analyzer as the call leaves it and the
  exception, if one is raised.
\<close>

function parse :: "LexicalAnalyzer \<Rightarrow> LexicalAnalyzer \<times> UnknownLexemeException option" where
  "parse a =
     (if in_bounds a then
        (let a1 = skip_spaces a in
         if \<not> in_bounds a1 then (a1, None)
         else
           (case process_static_lexeme a1 of
              (a2, Some lexeme) \<Rightarrow> parse (a2\<lparr>lexemes := lexemes a2 @ [lexeme]\<rparr>)
            | (a2, None) \<Rightarrow>
                (case process_dynamic_lexeme a2 of
                   (a3, Some lexeme) \<Rightarrow> parse (a3\<lparr>lexemes := lexemes a3 @ [lexeme]\<rparr>)
                 | (a3, None) \<Rightarrow> (a3, Some (UnknownLexemeException (offset a3))))))
      else (a, None))"
  by pat_completeness auto
termination
proof (relation "measure (\<lambda>a. length (source a) - offset a)")
  show "wf (measure (\<lambda>a. length (source a) - offset a))" by simp
next
  fix a a1 a2 y a3 y' lexeme
  assume b: "in_bounds a" and a1: "a1 = skip_spaces a" and b1: "\<not> \<not> in_bounds a1"
    and x: "(a2, y) = process_static_lexeme a1" and y: "y = None"
    and x': "(a3, y') = process_dynamic_lexeme a2" and y': "y' = Some lexeme"
  from x y have "process_static_lexeme a1 = (a2, None)" by simp
  then have a2: "a2 = a1" by (rule process_static_lexeme_None)
  from x' y' have d: "process_dynamic_lexeme a2 = (a3, Some lexeme)" by simp
  from b1 a2 have "offset a2 \<le> length (source a2)" by (simp add: in_bounds_def)
  from process_dynamic_lexeme_Some [OF d this] a2 a1 skip_spaces_offset [of a] skip_spaces_source [of a] b
  show "(a3\<lparr>lexemes := lexemes a3 @ [lexeme]\<rparr>, a) \<in> measure (\<lambda>a. length (source a) - offset a)"
    by (simp add: in_bounds_def)
next
  fix a a1 a2 y lexeme
  assume b: "in_bounds a" and a1: "a1 = skip_spaces a" and b1: "\<not> \<not> in_bounds a1"
    and x: "(a2, y) = process_static_lexeme a1" and y: "y = Some lexeme"
  from x y have "process_static_lexeme a1 = (a2, Some lexeme)" by simp
  from process_static_lexeme_Some [OF this] a1 skip_spaces_offset [of a] skip_spaces_source [of a] b
  show "(a2\<lparr>lexemes := lexemes a2 @ [lexeme]\<rparr>, a) \<in> measure (\<lambda>a. length (source a) - offset a)"
    by (simp add: in_bounds_def)
qed

declare parse.simps [simp del]

subsection \<open>One pass through the loop\<close>

text \<open>
  \<open>parse_iteration\<close> is the loop test and one execution of the loop body of \<^verbatim>\<open>parse\<close>:
  \<open>Inl\<close> the analyzer with which the loop goes round again, \<open>Inr\<close> what \<^verbatim>\<open>parse\<close> ends
  with. \<^verbatim>\<open>parse\<close> is the iteration of it (\<open>parse_unfold\<close>).
\<close>

definition parse_iteration ::
  "LexicalAnalyzer \<Rightarrow> LexicalAnalyzer + LexicalAnalyzer \<times> UnknownLexemeException option" where
  "parse_iteration a =
     (if in_bounds a then
        (let a1 = skip_spaces a in
         if \<not> in_bounds a1 then Inr (a1, None)
         else
           (case process_static_lexeme a1 of
              (a2, Some lexeme) \<Rightarrow> Inl (a2\<lparr>lexemes := lexemes a2 @ [lexeme]\<rparr>)
            | (a2, None) \<Rightarrow>
                (case process_dynamic_lexeme a2 of
                   (a3, Some lexeme) \<Rightarrow> Inl (a3\<lparr>lexemes := lexemes a3 @ [lexeme]\<rparr>)
                 | (a3, None) \<Rightarrow> Inr (a3, Some (UnknownLexemeException (offset a3))))))
      else Inr (a, None))"

lemma parse_unfold:
  "parse a = (case parse_iteration a of Inl a' \<Rightarrow> parse a' | Inr r \<Rightarrow> r)"
  by (subst parse.simps) (simp add: parse_iteration_def Let_def split: prod.splits option.splits)

lemma parse_continue: "isl (parse_iteration a) \<Longrightarrow> parse a = parse (projl (parse_iteration a))"
  by (subst parse_unfold) (cases "parse_iteration a"; simp)

lemma parse_stop: "\<not> isl (parse_iteration a) \<Longrightarrow> parse a = projr (parse_iteration a)"
  by (subst parse_unfold) (cases "parse_iteration a"; simp)

text \<open>
  The rewrite rules that run the analyzer on a given text: \<open>parse\<close> is unfolded one
  iteration at a time, once the iteration before it has been computed.
\<close>

lemmas eval_simps = parse_continue parse_stop parse_iteration_def new_analyzer_def in_bounds_def
  skip_spaces.simps process_static_lexeme_def process_dynamic_lexeme_def
  static_lexeme_definitions_def dynamic_lexeme_definitions_def keyword_def operator_def
  representation_def str_find_def isalnum_def space_chars_def search_def ident_start_def
  ident_char_def digit19_def digit09_def in_range_def Let_def

subsection \<open>What a caller reads off the lexemes\<close>

text \<open>The kind and the text of each lexeme, in order.\<close>

definition kinds_texts :: "Lexeme list \<Rightarrow> (LexemeType \<times> string) list" where
  "kinds_texts ls = map (\<lambda>l. (lexeme_type l, lexeme_value l)) ls"

text \<open>The slice \<^verbatim>\<open>source[offset : offset + length]\<close> that a lexeme's fields describe.\<close>

definition span_text :: "string \<Rightarrow> Lexeme \<Rightarrow> string" where
  "span_text src l = take (length_lex l) (drop (offset_lex l) src)"

subsection \<open>The run as a transition system\<close>

text \<open>
  The states a run on \<open>src\<close> passes through at the head of the \<^verbatim>\<open>while\<close> loop: the fresh
  analyzer, and the analyzer after every iteration that appended a lexeme.
\<close>

inductive reached :: "string \<Rightarrow> LexicalAnalyzer \<Rightarrow> bool" for src :: string where
  start: "reached src (new_analyzer src)"
| round: "reached src a \<Longrightarrow> parse_iteration a = Inl a' \<Longrightarrow> reached src a'"

text \<open>
  The loop with a bound on the number of iterations: \<open>None\<close> when the bound is used up
  before the loop has ended.
\<close>

fun parse_fuel ::
  "nat \<Rightarrow> LexicalAnalyzer \<Rightarrow> (LexicalAnalyzer \<times> UnknownLexemeException option) option" where
  "parse_fuel 0 a = None"
| "parse_fuel (Suc n) a =
     (case parse_iteration a of Inl a' \<Rightarrow> parse_fuel n a' | Inr r \<Rightarrow> Some r)"



section \<open>The analyzer inside a running process\<close>

text \<open>
  What two runs can share. A Python process that has imported the module holds the
  module-level lists \<^verbatim>\<open>static_lexeme_definitions\<close> and \<^verbatim>\<open>dynamic_lexeme_definitions\<close> and
  the class attribute \<^verbatim>\<open>LexicalAnalyzer.space_chars\<close>: three mutable list objects that every
  instance reads. It also holds the list objects that \<^verbatim>\<open>self._lexemes = []\<close> creates, one
  at each construction; an instance holds a reference to its list, and \<^verbatim>\<open>append\<close> writes
  into the list object. The list objects are kept in the order of their creation and a
  reference is a position in that order.
\<close>

type_synonym ref = nat

record process =
  g_static_lexeme_definitions :: "StaticLexemeDefinition list"
  g_dynamic_lexeme_definitions :: "DynamicLexemeDefinition list"
  g_space_chars :: "char list"
  list_objects :: "Lexeme list list"

text \<open>
  The attributes of an instance: \<^verbatim>\<open>self.source\<close>, \<^verbatim>\<open>self.offset\<close> and the reference held by
  \<^verbatim>\<open>self._lexemes\<close>.
\<close>

record analyzer_obj =
  self_source :: string
  self_offset :: nat
  self_lexemes :: ref

text \<open>
  The three shared lists have the contents that the text of the module gives them. This
  holds right after the import, whatever list objects the process has.
\<close>

definition imported :: "process \<Rightarrow> bool" where
  "imported p =
     (g_static_lexeme_definitions p = static_lexeme_definitions
      \<and> g_dynamic_lexeme_definitions p = dynamic_lexeme_definitions
      \<and> g_space_chars p = space_chars)"

text \<open>\<^verbatim>\<open>__init__\<close>: the new list object is empty and comes after all those that exist.\<close>

definition init_proc :: "process \<Rightarrow> string \<Rightarrow> process \<times> analyzer_obj" where
  "init_proc p src =
     (p\<lparr>list_objects := list_objects p @ [[]]\<rparr>,
      \<lparr>self_source = src, self_offset = 0, self_lexemes = length (list_objects p)\<rparr>)"

text \<open>The property \<^verbatim>\<open>lexemes\<close>: the list object that the instance refers to.\<close>

definition lexemes_proc :: "process \<Rightarrow> analyzer_obj \<Rightarrow> Lexeme list" where
  "lexemes_proc p self = list_objects p ! self_lexemes self"

text \<open>\<^verbatim>\<open>self.lexemes.append(lexeme)\<close>: the list object is changed in place.\<close>

definition append_proc :: "process \<Rightarrow> analyzer_obj \<Rightarrow> Lexeme \<Rightarrow> process" where
  "append_proc p self lexeme =
     p\<lparr>list_objects :=
         (list_objects p)[self_lexemes self := lexemes_proc p self @ [lexeme]]\<rparr>"

definition in_bounds_proc :: "analyzer_obj \<Rightarrow> bool" where
  "in_bounds_proc self = (self_offset self < length (self_source self))"

text \<open>\<^verbatim>\<open>skip_spaces\<close>, reading the class attribute from the process.\<close>

function skip_spaces_proc :: "process \<Rightarrow> analyzer_obj \<Rightarrow> analyzer_obj" where
  "skip_spaces_proc p self =
     (if in_bounds_proc self \<and> self_source self ! self_offset self \<in> set (g_space_chars p)
      then skip_spaces_proc p (self\<lparr>self_offset := self_offset self + 1\<rparr>)
      else self)"
  by pat_completeness auto
termination
  by (relation "measure (\<lambda>(p, self). length (self_source self) - self_offset self)")
    (auto simp: in_bounds_proc_def)

declare skip_spaces_proc.simps [simp del]

text \<open>
  The instance as the analyzer record of the sections above: its own attributes and the
  contents of the list object it refers to.
\<close>

definition view :: "process \<Rightarrow> analyzer_obj \<Rightarrow> LexicalAnalyzer" where
  "view p self =
     \<lparr>source = self_source self, offset = self_offset self, lexemes = lexemes_proc p self\<rparr>"

text \<open>
  The two matchers: the loops \<open>static_loop\<close> and \<open>dynamic_loop\<close> of above, run over the
  lists that the process holds. They write \<^verbatim>\<open>self.offset\<close> and nothing else.
\<close>

definition process_static_lexeme_proc ::
  "process \<Rightarrow> analyzer_obj \<Rightarrow> analyzer_obj \<times> Lexeme option" where
  "process_static_lexeme_proc p self =
     (case static_loop (g_static_lexeme_definitions p) (view p self) of
        (a, lexeme) \<Rightarrow> (self\<lparr>self_offset := offset a\<rparr>, lexeme))"

definition process_dynamic_lexeme_proc ::
  "process \<Rightarrow> analyzer_obj \<Rightarrow> analyzer_obj \<times> Lexeme option" where
  "process_dynamic_lexeme_proc p self =
     (case dynamic_loop (g_dynamic_lexeme_definitions p) (view p self) of
        (a, lexeme) \<Rightarrow> (self\<lparr>self_offset := offset a\<rparr>, lexeme))"

text \<open>
  One pass through the loop of \<^verbatim>\<open>parse\<close>, on the process and the instance: \<open>Inl\<close> to go
  round again, \<open>Inr\<close> what the call ends with.
\<close>

definition parse_iteration_proc ::
  "process \<times> analyzer_obj
     \<Rightarrow> process \<times> analyzer_obj + process \<times> analyzer_obj \<times> UnknownLexemeException option" where
  "parse_iteration_proc ps =
     (case ps of (p, self) \<Rightarrow>
        if in_bounds_proc self then
          (let self1 = skip_spaces_proc p self in
           if \<not> in_bounds_proc self1 then Inr (p, self1, None)
           else
             (case process_static_lexeme_proc p self1 of
                (self2, Some lexeme) \<Rightarrow> Inl (append_proc p self2 lexeme, self2)
              | (self2, None) \<Rightarrow>
                  (case process_dynamic_lexeme_proc p self2 of
                     (self3, Some lexeme) \<Rightarrow> Inl (append_proc p self3 lexeme, self3)
                   | (self3, None) \<Rightarrow>
                       Inr (p, self3, Some (UnknownLexemeException (self_offset self3))))))
        else Inr (p, self, None))"

text \<open>
  \<^verbatim>\<open>parse\<close> in the process. With arbitrary contents of the shared lists the loop need not
  end, so the result is optional and \<open>None\<close> stands for a loop that runs forever.
\<close>

partial_function (option) parse_proc ::
  "process \<times> analyzer_obj
     \<Rightarrow> (process \<times> analyzer_obj \<times> UnknownLexemeException option) option" where
  "parse_proc ps =
     (case parse_iteration_proc ps of
        Inl ps' \<Rightarrow> parse_proc ps'
      | Inr r \<Rightarrow> Some r)"

text \<open>
  A run, as \<^verbatim>\<open>main.py\<close> makes it: \<^verbatim>\<open>analyzer = LexicalAnalyzer(source)\<close>, then
  \<^verbatim>\<open>analyzer.parse()\<close>. The caller is left with the process, the instance and the exception.
\<close>

definition run_proc ::
  "process \<Rightarrow> string
     \<Rightarrow> (process \<times> analyzer_obj \<times> UnknownLexemeException option) option" where
  "run_proc p src = parse_proc (init_proc p src)"

text \<open>
  \<open>same_but r p p'\<close>: from \<open>p\<close> to \<open>p'\<close> nothing has changed but the contents of the list
  object \<open>r\<close>.
\<close>

definition same_but :: "ref \<Rightarrow> process \<Rightarrow> process \<Rightarrow> bool" where
  "same_but r p p' =
     (g_static_lexeme_definitions p' = g_static_lexeme_definitions p
      \<and> g_dynamic_lexeme_definitions p' = g_dynamic_lexeme_definitions p
      \<and> g_space_chars p' = g_space_chars p
      \<and> length (list_objects p') = length (list_objects p)
      \<and> (\<forall>r'. r' \<noteq> r \<longrightarrow> list_objects p' ! r' = list_objects p ! r'))"

section \<open>Properties of the loop\<close>

subsection \<open>One iteration\<close>

lemma parse_iteration_cases:
  obtains (out) "\<not> in_bounds a" "parse_iteration a = Inr (a, None)"
  | (finished) "in_bounds a" "\<not> in_bounds (skip_spaces a)"
      "parse_iteration a = Inr (skip_spaces a, None)"
  | (static) a2 l where "in_bounds a" "in_bounds (skip_spaces a)"
      "process_static_lexeme (skip_spaces a) = (a2, Some l)"
      "parse_iteration a = Inl (a2\<lparr>lexemes := lexemes a2 @ [l]\<rparr>)"
  | (dynamic) a3 l where "in_bounds a" "in_bounds (skip_spaces a)"
      "process_static_lexeme (skip_spaces a) = (skip_spaces a, None)"
      "process_dynamic_lexeme (skip_spaces a) = (a3, Some l)"
      "parse_iteration a = Inl (a3\<lparr>lexemes := lexemes a3 @ [l]\<rparr>)"
  | (raise) "in_bounds a" "in_bounds (skip_spaces a)"
      "process_static_lexeme (skip_spaces a) = (skip_spaces a, None)"
      "process_dynamic_lexeme (skip_spaces a) = (skip_spaces a, None)"
      "parse_iteration a = Inr (skip_spaces a, Some (UnknownLexemeException (offset (skip_spaces a))))"
proof (cases "in_bounds a")
  case False
  then show ?thesis using out by (simp add: parse_iteration_def Let_def)
next
  case b: True
  show ?thesis
  proof (cases "in_bounds (skip_spaces a)")
    case False
    with b show ?thesis using finished by (simp add: parse_iteration_def Let_def)
  next
    case b1: True
    obtain a2 r where s: "process_static_lexeme (skip_spaces a) = (a2, r)"
      by (cases "process_static_lexeme (skip_spaces a)")
    show ?thesis
    proof (cases r)
      case (Some l)
      with b b1 s show ?thesis using static [of a2 l] by (simp add: parse_iteration_def Let_def)
    next
      case None
      with s have a2: "a2 = skip_spaces a" by (simp add: process_static_lexeme_None)
      obtain a3 r' where d: "process_dynamic_lexeme (skip_spaces a) = (a3, r')"
        by (cases "process_dynamic_lexeme (skip_spaces a)")
      show ?thesis
      proof (cases r')
        case (Some l)
        with b b1 s None a2 d show ?thesis using dynamic [of a3 l]
          by (simp add: parse_iteration_def Let_def)
      next
        case n: None
        with d have a3: "a3 = skip_spaces a" by (simp add: process_dynamic_lexeme_None)
        with b b1 s None a2 d n show ?thesis using raise by (simp add: parse_iteration_def Let_def)
      qed
    qed
  qed
qed

lemma parse_iteration_Inl:
  assumes "parse_iteration a = Inl a'"
  shows "source a' = source a" and "offset a < offset a'"
    and "offset a' \<le> length (source a)" and "\<exists>l. lexemes a' = lexemes a @ [l]"
proof -
  have "source a' = source a \<and> offset a < offset a' \<and> offset a' \<le> length (source a)
      \<and> (\<exists>l. lexemes a' = lexemes a @ [l])"
  proof (cases a rule: parse_iteration_cases)
    case (static a2 l)
    from process_static_lexeme_Some [OF static(3)] static(4) assms
      skip_spaces_offset [of a] skip_spaces_source [of a] skip_spaces_lexemes [of a]
    show ?thesis by auto
  next
    case (dynamic a3 l)
    from dynamic(2) have "offset (skip_spaces a) \<le> length (source (skip_spaces a))"
      by (simp add: in_bounds_def)
    from process_dynamic_lexeme_Some [OF dynamic(4) this] dynamic(5) assms
      skip_spaces_offset [of a] skip_spaces_source [of a] skip_spaces_lexemes [of a]
    show ?thesis by auto
  qed (use assms in simp_all)
  then show "source a' = source a" and "offset a < offset a'"
    and "offset a' \<le> length (source a)" and "\<exists>l. lexemes a' = lexemes a @ [l]"
    by simp_all
qed

lemma parse_iteration_Inr:
  assumes "parse_iteration a = Inr (a', e)"
  shows "a' = (if in_bounds a then skip_spaces a else a)"
  by (cases a rule: parse_iteration_cases) (use assms in simp_all)

subsection \<open>Reached states and the result\<close>

lemma reached_source: "reached src a \<Longrightarrow> source a = src"
  by (induction rule: reached.induct) (simp_all add: new_analyzer_def parse_iteration_Inl(1))



lemma parse_fuel_enough:
  "length (source a) - offset a < n \<Longrightarrow> parse_fuel n a = Some (parse a)"
proof (induction n arbitrary: a)
  case 0
  then show ?case by simp
next
  case (Suc n)
  show ?case
  proof (cases "parse_iteration a")
    case (Inl a')
    from parse_iteration_Inl [OF Inl] Suc.prems
    have "length (source a') - offset a' < n" by simp
    then have "parse_fuel n a' = Some (parse a')" by (rule Suc.IH)
    moreover from Inl have "parse a = parse a'" by (subst parse_unfold) simp
    ultimately show ?thesis using Inl by simp
  next
    case (Inr r)
    then have "parse a = r" by (subst parse_unfold) simp
    with Inr show ?thesis by simp
  qed
qed

subsection \<open>When the matchers return nothing\<close>







subsection \<open>The offset\<close>

lemma static_offset:
  "offset a \<le> offset (fst (process_static_lexeme a))"
  "snd (process_static_lexeme a) \<noteq> None \<Longrightarrow> offset a < offset (fst (process_static_lexeme a))"
proof -
  obtain a' r where s: "process_static_lexeme a = (a', r)"
    by (cases "process_static_lexeme a")
  show "offset a \<le> offset (fst (process_static_lexeme a))"
  proof (cases r)
    case None
    with s process_static_lexeme_None [of a a'] show ?thesis by simp
  next
    case (Some l)
    with s process_static_lexeme_Some(3) [of a a' l] show ?thesis by simp
  qed
  show "offset a < offset (fst (process_static_lexeme a))"
    if "snd (process_static_lexeme a) \<noteq> None"
    using that s process_static_lexeme_Some(3) [of a a'] by auto
qed

lemma dynamic_loop_offset:
  assumes "set ds \<subseteq> set dynamic_lexeme_definitions"
  shows "offset a \<le> offset (fst (dynamic_loop ds a))
     \<and> (snd (dynamic_loop ds a) \<noteq> None \<longrightarrow> offset a < offset (fst (dynamic_loop ds a)))"
  using assms
proof (induction ds)
  case Nil
  show ?case by simp
next
  case (Cons d ds)
  show ?case
  proof (cases "search (pattern d) (source a) (offset a)")
    case None
    with Cons show ?thesis by simp
  next
    case (Some span)
    obtain st e where span: "span = (st, e)" by (cases span)
    from Cons.prems have d: "d \<in> set dynamic_lexeme_definitions" by simp
    from Some span have "search_from (pattern d)
        (drop (min (offset a) (length (source a))) (source a))
        (min (offset a) (length (source a))) = Some (st, e)"
      by (simp add: search_def Let_def)
    from search_from_span [OF this pattern_bounds [OF d]] have "st < e" by simp
    with Some span show ?thesis by (simp add: Let_def) arith
  qed
qed

lemma dynamic_offset:
  "offset a \<le> offset (fst (process_dynamic_lexeme a))"
  "snd (process_dynamic_lexeme a) \<noteq> None \<Longrightarrow> offset a < offset (fst (process_dynamic_lexeme a))"
  using dynamic_loop_offset [OF subset_refl, of a] by (simp_all add: process_dynamic_lexeme_def)

lemma parse_offset: "offset a \<le> offset (fst (parse a))"
proof (induction "length (source a) - offset a" arbitrary: a rule: less_induct)
  case less
  show ?case
  proof (cases "parse_iteration a")
    case (Inl a')
    from parse_iteration_Inl [OF Inl]
    have m: "length (source a') - offset a' < length (source a) - offset a"
      and o: "offset a < offset a'" by simp_all
    from m have "offset a' \<le> offset (fst (parse a'))" by (rule less.hyps)
    moreover from Inl have "parse a = parse a'" by (subst parse_unfold) simp
    ultimately show ?thesis using o by simp
  next
    case (Inr r)
    then have p: "parse a = r" by (subst parse_unfold) simp
    obtain a' e where r: "r = (a', e)" by (cases r)
    from parse_iteration_Inr [OF Inr [unfolded r]] skip_spaces_offset [of a] p r
    show ?thesis by (simp split: if_splits)
  qed
qed

subsection \<open>The keyword boundary check\<close>

lemma static_types_distinct: "distinct (map static_type static_lexeme_definitions)"
  by (simp add: static_lexeme_definitions_def keyword_def operator_def)

lemma keyword_rejected:
  assumes "is_keyword d"
    and "offset a + length (representation d) < length (source a)"
    and "source a ! (offset a + length (representation d)) = CHR ''_''
         \<or> isalnum (source a ! (offset a + length (representation d)))"
  shows "\<not> static_accepts a d"
  using assms by (auto simp: static_accepts_def Let_def)

lemma static_loop_skip: "\<not> static_accepts a d \<Longrightarrow> static_loop (d # rest) a = static_loop rest a"
  by (simp add: static_loop_find)

lemma process_static_lexeme_kind:
  assumes "snd (process_static_lexeme a) = Some l"
  shows "\<exists>d \<in> set static_lexeme_definitions. static_accepts a d \<and> lexeme_type l = static_type d"
proof -
  from assms obtain d where f: "List.find (static_accepts a) static_lexeme_definitions = Some d"
    and r: "snd (static_result a d) = Some l"
    by (auto simp: process_static_lexeme_def static_loop_find split: option.splits)
  from f have "d \<in> set static_lexeme_definitions" and "static_accepts a d"
    by (auto simp: find_Some_iff)
  moreover from r have "lexeme_type l = static_type d" by (auto simp: static_result_def)
  ultimately show ?thesis by blast
qed

section \<open>Runs in a process and the loop\<close>

text \<open>
  In a process that has imported the module, every step of the analyzer on the process
  is the step of the loop on the analyzer record that the instance stands for; it
  changes the instance's own list object and nothing else in the process.
\<close>

lemma skip_spaces_proc_fields:
  "self_source (skip_spaces_proc p self) = self_source self"
  "self_lexemes (skip_spaces_proc p self) = self_lexemes self"
  by (induction p self rule: skip_spaces_proc.induct; subst skip_spaces_proc.simps; simp)+

lemma view_skip_spaces_proc:
  assumes "g_space_chars p = space_chars"
  shows "view p (skip_spaces_proc p self) = skip_spaces (view p self)"
  using assms
proof (induction p self rule: skip_spaces_proc.induct)
  case (1 p self)
  show ?case
  proof (cases "in_bounds_proc self
      \<and> self_source self ! self_offset self \<in> set (g_space_chars p)")
    case True
    then have l: "skip_spaces_proc p self
        = skip_spaces_proc p (self\<lparr>self_offset := self_offset self + 1\<rparr>)"
      by (subst skip_spaces_proc.simps) simp
    from True "1.prems" have "in_bounds (view p self)
        \<and> source (view p self) ! offset (view p self) \<in> set space_chars"
      by (simp add: view_def in_bounds_def in_bounds_proc_def)
    then have r: "skip_spaces (view p self)
        = skip_spaces ((view p self)\<lparr>offset := offset (view p self) + 1\<rparr>)"
      by (subst skip_spaces.simps) simp
    have v: "view p (self\<lparr>self_offset := self_offset self + 1\<rparr>)
        = (view p self)\<lparr>offset := offset (view p self) + 1\<rparr>"
      by (simp add: view_def lexemes_proc_def)
    from "1.IH" [OF True "1.prems"] l r v show ?thesis by simp
  next
    case False
    then have l: "skip_spaces_proc p self = self"
      by (subst skip_spaces_proc.simps) auto
    from False "1.prems" have "\<not> (in_bounds (view p self)
        \<and> source (view p self) ! offset (view p self) \<in> set space_chars)"
      by (simp add: view_def in_bounds_def in_bounds_proc_def)
    then have "skip_spaces (view p self) = view p self"
      by (subst skip_spaces.simps) auto
    with l show ?thesis by simp
  qed
qed

lemma static_loop_fields:
  "source (fst (static_loop ds a)) = source a" "lexemes (fst (static_loop ds a)) = lexemes a"
  by (simp_all add: static_loop_find static_result_def split: option.splits)

lemma dynamic_loop_fields:
  "source (fst (dynamic_loop ds a)) = source a" "lexemes (fst (dynamic_loop ds a)) = lexemes a"
  by (induction ds) (simp_all add: Let_def split: option.splits)

lemma view_offset:
  assumes "source a = source (view p self)" and "lexemes a = lexemes (view p self)"
  shows "view p (self\<lparr>self_offset := offset a\<rparr>) = a"
  using assms by (simp add: view_def lexemes_proc_def)

lemma view_static:
  assumes "g_static_lexeme_definitions p = static_lexeme_definitions"
    and "process_static_lexeme (view p self) = (a, r)"
  shows "process_static_lexeme_proc p self = (self\<lparr>self_offset := offset a\<rparr>, r)"
    and "view p (self\<lparr>self_offset := offset a\<rparr>) = a"
proof -
  from assms show "process_static_lexeme_proc p self = (self\<lparr>self_offset := offset a\<rparr>, r)"
    by (simp add: process_static_lexeme_proc_def process_static_lexeme_def)
  from assms(2) static_loop_fields [of static_lexeme_definitions "view p self"]
  have "source a = source (view p self)" "lexemes a = lexemes (view p self)"
    by (simp_all add: process_static_lexeme_def)
  then show "view p (self\<lparr>self_offset := offset a\<rparr>) = a" by (rule view_offset)
qed

lemma view_dynamic:
  assumes "g_dynamic_lexeme_definitions p = dynamic_lexeme_definitions"
    and "process_dynamic_lexeme (view p self) = (a, r)"
  shows "process_dynamic_lexeme_proc p self = (self\<lparr>self_offset := offset a\<rparr>, r)"
    and "view p (self\<lparr>self_offset := offset a\<rparr>) = a"
proof -
  from assms show "process_dynamic_lexeme_proc p self = (self\<lparr>self_offset := offset a\<rparr>, r)"
    by (simp add: process_dynamic_lexeme_proc_def process_dynamic_lexeme_def)
  from assms(2) dynamic_loop_fields [of dynamic_lexeme_definitions "view p self"]
  have "source a = source (view p self)" "lexemes a = lexemes (view p self)"
    by (simp_all add: process_dynamic_lexeme_def)
  then show "view p (self\<lparr>self_offset := offset a\<rparr>) = a" by (rule view_offset)
qed

lemma same_but_refl: "same_but r p p"
  by (simp add: same_but_def)

lemma same_but_trans: "same_but r p p' \<Longrightarrow> same_but r p' p'' \<Longrightarrow> same_but r p p''"
  by (simp add: same_but_def)

lemma same_but_imported: "same_but r p p' \<Longrightarrow> imported p \<Longrightarrow> imported p'"
  by (simp add: same_but_def imported_def)

lemma append_proc_view:
  assumes "self_lexemes self < length (list_objects p)"
  shows "view (append_proc p self l) self = (view p self)\<lparr>lexemes := lexemes (view p self) @ [l]\<rparr>"
    and "same_but (self_lexemes self) p (append_proc p self l)"
  using assms by (simp_all add: view_def lexemes_proc_def append_proc_def same_but_def)

lemma parse_iteration_proc_sim:
  assumes i: "imported p" and r: "self_lexemes self < length (list_objects p)"
  shows "case parse_iteration (view p self) of
           Inl a' \<Rightarrow>
             (\<exists>p' self'. parse_iteration_proc (p, self) = Inl (p', self') \<and> view p' self' = a'
                \<and> self_lexemes self' = self_lexemes self \<and> same_but (self_lexemes self) p p')
         | Inr res \<Rightarrow>
             (\<exists>self'. parse_iteration_proc (p, self) = Inr (p, self', snd res)
                \<and> view p self' = fst res \<and> self_lexemes self' = self_lexemes self)"
proof -
  let ?s1 = "skip_spaces_proc p self"
  from i have g: "g_static_lexeme_definitions p = static_lexeme_definitions"
    "g_dynamic_lexeme_definitions p = dynamic_lexeme_definitions"
    "g_space_chars p = space_chars"
    by (simp_all add: imported_def)
  have b: "in_bounds (view p s) = in_bounds_proc s" for s
    by (simp add: view_def in_bounds_def in_bounds_proc_def)
  have v1: "view p ?s1 = skip_spaces (view p self)"
    by (rule view_skip_spaces_proc [OF g(3)])
  have r1: "self_lexemes ?s1 = self_lexemes self" by (rule skip_spaces_proc_fields)
  show ?thesis
  proof (cases "view p self" rule: parse_iteration_cases)
    case out
    with b [of self] show ?thesis by (simp add: parse_iteration_proc_def)
  next
    case finished
    with b [of self] b [of ?s1] v1 r1 show ?thesis
      by (simp add: parse_iteration_proc_def Let_def)
  next
    case (static a2 l)
    let ?s2 = "?s1\<lparr>self_offset := offset a2\<rparr>"
    from static(3) v1 have s: "process_static_lexeme (view p ?s1) = (a2, Some l)" by simp
    note vs = view_static [OF g(1) s]
    from r r1 have rr: "self_lexemes ?s2 < length (list_objects p)" by simp
    note ap = append_proc_view [OF rr, of l]
    from static(1,2) b [of self] b [of ?s1] v1 vs(1)
    have "parse_iteration_proc (p, self) = Inl (append_proc p ?s2 l, ?s2)"
      by (simp add: parse_iteration_proc_def Let_def)
    moreover from ap(1) vs(2) have "view (append_proc p ?s2 l) ?s2 = a2\<lparr>lexemes := lexemes a2 @ [l]\<rparr>"
      by simp
    moreover from ap(2) r1 have "same_but (self_lexemes self) p (append_proc p ?s2 l)" by simp
    ultimately show ?thesis using static(4) r1 by simp
  next
    case (dynamic a3 l)
    from dynamic(3) v1 have s: "process_static_lexeme (view p ?s1) = (view p ?s1, None)" by simp
    note vs = view_static [OF g(1) s]
    have e: "?s1\<lparr>self_offset := offset (view p ?s1)\<rparr> = ?s1" by (simp add: view_def)
    let ?s3 = "?s1\<lparr>self_offset := offset a3\<rparr>"
    from dynamic(4) v1 have d: "process_dynamic_lexeme (view p ?s1) = (a3, Some l)" by simp
    note vd = view_dynamic [OF g(2) d]
    from r r1 have rr: "self_lexemes ?s3 < length (list_objects p)" by simp
    note ap = append_proc_view [OF rr, of l]
    from dynamic(1,2) b [of self] b [of ?s1] v1 vs(1) e vd(1)
    have "parse_iteration_proc (p, self) = Inl (append_proc p ?s3 l, ?s3)"
      by (simp add: parse_iteration_proc_def Let_def)
    moreover from ap(1) vd(2) have "view (append_proc p ?s3 l) ?s3 = a3\<lparr>lexemes := lexemes a3 @ [l]\<rparr>"
      by simp
    moreover from ap(2) r1 have "same_but (self_lexemes self) p (append_proc p ?s3 l)" by simp
    ultimately show ?thesis using dynamic(5) r1 by simp
  next
    case raise
    from raise(3) v1 have s: "process_static_lexeme (view p ?s1) = (view p ?s1, None)" by simp
    note vs = view_static [OF g(1) s]
    have e: "?s1\<lparr>self_offset := offset (view p ?s1)\<rparr> = ?s1" by (simp add: view_def)
    from raise(4) v1 have d: "process_dynamic_lexeme (view p ?s1) = (view p ?s1, None)" by simp
    note vd = view_dynamic [OF g(2) d]
    from raise(1,2) b [of self] b [of ?s1] v1 vs(1) e vd(1)
    have "parse_iteration_proc (p, self) =
        Inr (p, ?s1, Some (UnknownLexemeException (self_offset ?s1)))"
      by (simp add: parse_iteration_proc_def Let_def)
    moreover have "offset (view p ?s1) = self_offset ?s1" by (simp add: view_def)
    with v1 have "self_offset ?s1 = offset (skip_spaces (view p self))" by simp
    ultimately show ?thesis using raise(5) v1 r1 by simp
  qed
qed

lemma parse_proc_sim:
  assumes "imported p" and "self_lexemes self < length (list_objects p)"
  shows "\<exists>p' self'. parse_proc (p, self) = Some (p', self', snd (parse (view p self)))
           \<and> view p' self' = fst (parse (view p self))
           \<and> self_lexemes self' = self_lexemes self \<and> same_but (self_lexemes self) p p'"
  using assms
proof (induction "length (source (view p self)) - offset (view p self)"
    arbitrary: p self rule: less_induct)
  case less
  note sim = parse_iteration_proc_sim [OF less.prems]
  show ?case
  proof (cases "parse_iteration (view p self)")
    case (Inl a')
    with sim obtain p' self' where st: "parse_iteration_proc (p, self) = Inl (p', self')"
      and v: "view p' self' = a'" and r: "self_lexemes self' = self_lexemes self"
      and f: "same_but (self_lexemes self) p p'"
      by auto
    from parse_iteration_Inl [OF Inl] v
    have m: "length (source (view p' self')) - offset (view p' self')
        < length (source (view p self)) - offset (view p self)"
      by simp
    from f less.prems(1) have i': "imported p'" by (rule same_but_imported)
    from f r less.prems(2) have r': "self_lexemes self' < length (list_objects p')"
      by (simp add: same_but_def)
    from less.hyps [OF m i' r'] obtain p'' self''
      where run: "parse_proc (p', self') = Some (p'', self'', snd (parse (view p' self')))"
        and v'': "view p'' self'' = fst (parse (view p' self'))"
        and r'': "self_lexemes self'' = self_lexemes self'"
        and f'': "same_but (self_lexemes self') p' p''"
      by blast
    from Inl v have pe: "parse (view p self) = parse (view p' self')"
      by (subst parse_unfold) simp
    from st run have "parse_proc (p, self) = Some (p'', self'', snd (parse (view p' self')))"
      by (subst parse_proc.simps) simp
    moreover from f f'' r have "same_but (self_lexemes self) p p''"
      by (auto intro: same_but_trans)
    ultimately show ?thesis using pe v'' r'' r by auto
  next
    case (Inr res)
    with sim obtain self' where st: "parse_iteration_proc (p, self) = Inr (p, self', snd res)"
      and v: "view p self' = fst res" and r: "self_lexemes self' = self_lexemes self"
      by auto
    from Inr have pe: "parse (view p self) = res" by (subst parse_unfold) simp
    from st have "parse_proc (p, self) = Some (p, self', snd res)"
      by (subst parse_proc.simps) simp
    with pe v r same_but_refl [of "self_lexemes self" p] show ?thesis by auto
  qed
qed

lemma run_proc_result:
  assumes "imported p"
  shows "\<exists>p' self. run_proc p src = Some (p', self, snd (parse (new_analyzer src)))
           \<and> lexemes_proc p' self = lexemes (fst (parse (new_analyzer src)))
           \<and> self_lexemes self = length (list_objects p)
           \<and> imported p'
           \<and> length (list_objects p') = Suc (length (list_objects p))
           \<and> (\<forall>r < length (list_objects p). list_objects p' ! r = list_objects p ! r)"
proof -
  obtain p0 self0 where init: "init_proc p src = (p0, self0)" by (cases "init_proc p src")
  then have p0: "p0 = p\<lparr>list_objects := list_objects p @ [[]]\<rparr>"
    and s0: "self0 = \<lparr>self_source = src, self_offset = 0, self_lexemes = length (list_objects p)\<rparr>"
    by (simp_all add: init_proc_def)
  from assms p0 have i0: "imported p0" by (simp add: imported_def)
  from p0 s0 have r0: "self_lexemes self0 < length (list_objects p0)" by simp
  from p0 s0 have v0: "view p0 self0 = new_analyzer src"
    by (simp add: view_def lexemes_proc_def new_analyzer_def)
  from parse_proc_sim [OF i0 r0] v0 obtain p' self
    where run: "parse_proc (p0, self0) = Some (p', self, snd (parse (new_analyzer src)))"
      and v: "view p' self = fst (parse (new_analyzer src))"
      and r: "self_lexemes self = self_lexemes self0"
      and f: "same_but (self_lexemes self0) p0 p'"
    by auto
  from run init have "run_proc p src = Some (p', self, snd (parse (new_analyzer src)))"
    by (simp add: run_proc_def)
  moreover have "lexemes (view p' self) = lexemes_proc p' self" by (simp add: view_def)
  with v have "lexemes_proc p' self = lexemes (fst (parse (new_analyzer src)))" by simp
  moreover from r s0 have "self_lexemes self = length (list_objects p)" by simp
  moreover from f i0 have "imported p'" by (rule same_but_imported)
  moreover from f p0 have "length (list_objects p') = Suc (length (list_objects p))"
    by (simp add: same_but_def)
  moreover from f p0 s0
  have "\<forall>r < length (list_objects p). list_objects p' ! r = list_objects p ! r"
    by (simp add: same_but_def nth_append)
  ultimately show ?thesis by blast
qed

lemma parse_proc_continue:
  "isl (parse_iteration_proc ps) \<Longrightarrow> parse_proc ps = parse_proc (projl (parse_iteration_proc ps))"
  by (subst parse_proc.simps) (cases "parse_iteration_proc ps"; simp)

lemma parse_proc_stop:
  "\<not> isl (parse_iteration_proc ps) \<Longrightarrow> parse_proc ps = Some (projr (parse_iteration_proc ps))"
  by (subst parse_proc.simps) (cases "parse_iteration_proc ps"; simp)

text \<open>The rewrite rules that run the analyzer in a given process.\<close>

lemmas eval_proc_simps = parse_proc_continue parse_proc_stop parse_iteration_proc_def
  run_proc_def init_proc_def in_bounds_proc_def skip_spaces_proc.simps
  process_static_lexeme_proc_def process_dynamic_lexeme_proc_def view_def lexemes_proc_def
  append_proc_def imported_def
  static_lexeme_definitions_def dynamic_lexeme_definitions_def keyword_def operator_def
  representation_def str_find_def isalnum_def space_chars_def search_def ident_start_def
  ident_char_def digit19_def digit09_def in_range_def Let_def

section \<open>The claims of the specification\<close>

text \<open>
  C1. On the text \<^verbatim>\<open>Dim x\<close> the analyzer records offset 3 for \<^verbatim>\<open>Dim\<close> and offset 5 for
  \<^verbatim>\<open>x\<close>: the cursor after the advance. The slices \<^verbatim>\<open>source[offset : offset + length]\<close>
  of the two lexemes are a blank followed by \<^verbatim>\<open>x\<close>, and the empty text; they are not
  \<^verbatim>\<open>Dim\<close> and \<^verbatim>\<open>x\<close>, so the invariant of the specification does not hold of the code.
\<close>

theorem lexeme_offset_post_advance:
  "lexemes (fst (parse (new_analyzer ''Dim x''))) =
     [\<lparr>lexeme_type = Dim, lexeme_value = ''Dim'', offset_lex = 3, length_lex = 3\<rparr>,
      \<lparr>lexeme_type = Identifier, lexeme_value = ''x'', offset_lex = 5, length_lex = 1\<rparr>] \<and>
   map (span_text ''Dim x'') (lexemes (fst (parse (new_analyzer ''Dim x'')))) = ['' x'', []]"
  by (simp add: eval_simps span_text_def)

text \<open>
  C2. On the text \<^verbatim>\<open>Dim x @ 1\<close> the analyzer raises nothing. At the \<^verbatim>\<open>@\<close> (offset 6) the
  number pattern is searched forward and finds the \<^verbatim>\<open>1\<close> at offset 8; the cursor moves
  by the length of the match, to 7, and the \<^verbatim>\<open>1\<close> is found once more from there. The
  lexemes are \<^verbatim>\<open>Dim\<close>, \<^verbatim>\<open>x\<close>, \<^verbatim>\<open>1\<close>, \<^verbatim>\<open>1\<close>.
\<close>

theorem parse_Dim_x_at_1:
  "parse (new_analyzer ''Dim x @ 1'') =
    (\<lparr>source = ''Dim x @ 1'', offset = 9,
      lexemes =
        [\<lparr>lexeme_type = Dim, lexeme_value = ''Dim'', offset_lex = 3, length_lex = 3\<rparr>,
         \<lparr>lexeme_type = Identifier, lexeme_value = ''x'', offset_lex = 5, length_lex = 1\<rparr>,
         \<lparr>lexeme_type = Number, lexeme_value = ''1'', offset_lex = 7, length_lex = 1\<rparr>,
         \<lparr>lexeme_type = Number, lexeme_value = ''1'', offset_lex = 9, length_lex = 1\<rparr>]\<rparr>,
     None)"
  by (simp add: eval_simps)

text \<open>
  C3. On the text \<^verbatim>\<open>If x > 0 Then\<close> the analyzer raises nothing. At the \<^verbatim>\<open>>\<close> (offset 5)
  the identifier pattern is searched forward and finds \<^verbatim>\<open>Then\<close> at offset 9; the cursor
  moves by four characters, to 9, and \<^verbatim>\<open>Then\<close> is found once more. The lexemes are
  \<^verbatim>\<open>If\<close>, \<^verbatim>\<open>x\<close>, \<^verbatim>\<open>Then\<close>, \<^verbatim>\<open>Then\<close>; the \<^verbatim>\<open>0\<close> is never a lexeme.
\<close>

theorem parse_If_x_gt_0_Then:
  "parse (new_analyzer ''If x > 0 Then'') =
    (\<lparr>source = ''If x > 0 Then'', offset = 13,
      lexemes =
        [\<lparr>lexeme_type = If_lex, lexeme_value = ''If'', offset_lex = 2, length_lex = 2\<rparr>,
         \<lparr>lexeme_type = Identifier, lexeme_value = ''x'', offset_lex = 4, length_lex = 1\<rparr>,
         \<lparr>lexeme_type = Identifier, lexeme_value = ''Then'', offset_lex = 9, length_lex = 4\<rparr>,
         \<lparr>lexeme_type = Identifier, lexeme_value = ''Then'', offset_lex = 13, length_lex = 4\<rparr>]\<rparr>,
     None)"
  by (simp add: eval_simps)

text \<open>
  C4. The list of static definitions has no entry for \<^verbatim>\<open>Sub\<close> and none for \<^verbatim>\<open>Next\<close>, and
  it lists \<^verbatim>\<open>And\<close> before \<^verbatim>\<open>AndAlso\<close> and \<^verbatim>\<open>Or\<close> before \<^verbatim>\<open>OrElse\<close>, none of them a keyword.
  So the text \<^verbatim>\<open>Sub\<close> gives an \<^verbatim>\<open>Identifier\<close>, and \<^verbatim>\<open>Next AndAlso OrElse\<close> gives the
  identifier \<^verbatim>\<open>Next\<close>, then \<^verbatim>\<open>And\<close> and the identifier \<^verbatim>\<open>Also\<close>, then \<^verbatim>\<open>Or\<close> and \<^verbatim>\<open>Else\<close>.
\<close>

theorem parse_Sub_AndAlso:
  "parse (new_analyzer ''Sub'') =
    (\<lparr>source = ''Sub'', offset = 3,
      lexemes = [\<lparr>lexeme_type = Identifier, lexeme_value = ''Sub'', offset_lex = 3, length_lex = 3\<rparr>]\<rparr>,
     None) \<and>
   kinds_texts (lexemes (fst (parse (new_analyzer ''Next AndAlso OrElse''))))
     = [(Identifier, ''Next''), (And, ''And''), (Identifier, ''Also''), (Or, ''Or''), (Else, ''Else'')]"
  by (simp add: eval_simps kinds_texts_def)

text \<open>
  C5. The text \<^verbatim>\<open>Forecast = 1\<close> gives the identifier \<^verbatim>\<open>Forecast\<close>, the assignment sign and
  the number \<^verbatim>\<open>1\<close>, and no \<^verbatim>\<open>For\<close>. In general: when the literal of a keyword definition
  is the text at the offset and the character right after it is an underscore or
  alphanumeric, the loop over the static definitions passes that definition over and
  goes on with the definitions after it; and for a keyword of the catalog, whatever
  \<^verbatim>\<open>process_static_lexeme\<close> then returns is not a lexeme of that keyword's kind.
\<close>

theorem keyword_boundary:
  "kinds_texts (lexemes (fst (parse (new_analyzer ''Forecast = 1''))))
     = [(Identifier, ''Forecast''), (Assign, ''=''), (Number, ''1'')]
   \<and> (\<forall>d rest a.
         is_keyword d
         \<and> take (length (representation d)) (drop (offset a) (source a)) = representation d
         \<and> offset a + length (representation d) < length (source a)
         \<and> (source a ! (offset a + length (representation d)) = CHR ''_''
              \<or> isalnum (source a ! (offset a + length (representation d))))
         \<longrightarrow> static_loop (d # rest) a = static_loop rest a)
   \<and> (\<forall>d a l.
         d \<in> set static_lexeme_definitions \<and> is_keyword d
         \<and> take (length (representation d)) (drop (offset a) (source a)) = representation d
         \<and> offset a + length (representation d) < length (source a)
         \<and> (source a ! (offset a + length (representation d)) = CHR ''_''
              \<or> isalnum (source a ! (offset a + length (representation d))))
         \<and> snd (process_static_lexeme a) = Some l
         \<longrightarrow> lexeme_type l \<noteq> static_type d)"
proof (intro conjI allI impI)
  show "kinds_texts (lexemes (fst (parse (new_analyzer ''Forecast = 1''))))
     = [(Identifier, ''Forecast''), (Assign, ''=''), (Number, ''1'')]"
    by (simp add: eval_simps kinds_texts_def)
next
  fix d :: StaticLexemeDefinition and rest :: "StaticLexemeDefinition list"
    and a :: LexicalAnalyzer
  assume "is_keyword d
         \<and> take (length (representation d)) (drop (offset a) (source a)) = representation d
         \<and> offset a + length (representation d) < length (source a)
         \<and> (source a ! (offset a + length (representation d)) = CHR ''_''
              \<or> isalnum (source a ! (offset a + length (representation d))))"
  then have "\<not> static_accepts a d" by (simp add: keyword_rejected)
  then show "static_loop (d # rest) a = static_loop rest a" by (rule static_loop_skip)
next
  fix d :: StaticLexemeDefinition and a :: LexicalAnalyzer and l :: Lexeme
  assume h: "d \<in> set static_lexeme_definitions \<and> is_keyword d
         \<and> take (length (representation d)) (drop (offset a) (source a)) = representation d
         \<and> offset a + length (representation d) < length (source a)
         \<and> (source a ! (offset a + length (representation d)) = CHR ''_''
              \<or> isalnum (source a ! (offset a + length (representation d))))
         \<and> snd (process_static_lexeme a) = Some l"
  then have n: "\<not> static_accepts a d" by (simp add: keyword_rejected)
  from h process_static_lexeme_kind [of a l]
  obtain d' where d': "d' \<in> set static_lexeme_definitions" "static_accepts a d'"
    "lexeme_type l = static_type d'" by blast
  show "lexeme_type l \<noteq> static_type d"
  proof
    assume "lexeme_type l = static_type d"
    with d' have "static_type d' = static_type d" by simp
    with d'(1) h static_types_distinct have "d' = d"
      by (auto simp: distinct_map dest: inj_onD)
    with d'(2) n show False by simp
  qed
qed

text \<open>
  The hypotheses hold of \<^verbatim>\<open>For\<close> at the start of \<^verbatim>\<open>Forecast = 1\<close>: the literal is there and
  \<^verbatim>\<open>e\<close> follows it.
\<close>

theorem keyword_boundary_witness:
  "is_keyword (keyword For)
   \<and> take (length (representation (keyword For)))
        (drop (offset (new_analyzer ''Forecast = 1'')) (source (new_analyzer ''Forecast = 1'')))
       = representation (keyword For)
   \<and> offset (new_analyzer ''Forecast = 1'') + length (representation (keyword For))
       < length (source (new_analyzer ''Forecast = 1''))
   \<and> isalnum (source (new_analyzer ''Forecast = 1'')
        ! (offset (new_analyzer ''Forecast = 1'') + length (representation (keyword For))))
   \<and> static_loop [keyword For, keyword Each, keyword End] (new_analyzer ''Forecast = 1'')
       = static_loop [keyword Each, keyword End] (new_analyzer ''Forecast = 1'')
   \<and> static_loop [keyword Each, keyword End] (new_analyzer ''Forecast = 1'')
       = (new_analyzer ''Forecast = 1'', None)"
proof -
  let ?a = "new_analyzer ''Forecast = 1''"
  have 1: "is_keyword (keyword For)" by (simp add: keyword_def)
  have 2: "take (length (representation (keyword For))) (drop (offset ?a) (source ?a))
       = representation (keyword For)"
    by (simp add: keyword_def representation_def new_analyzer_def)
  have 3: "offset ?a + length (representation (keyword For)) < length (source ?a)"
    by (simp add: keyword_def representation_def new_analyzer_def)
  have 4: "isalnum (source ?a ! (offset ?a + length (representation (keyword For))))"
    by (simp add: keyword_def representation_def new_analyzer_def isalnum_def)
  have 5: "static_loop [keyword Each, keyword End] ?a = (?a, None)"
    by (simp add: eval_simps)
  from keyword_boundary 1 2 3 4
  have "static_loop [keyword For, keyword Each, keyword End] ?a
       = static_loop [keyword Each, keyword End] ?a" by blast
  with 1 2 3 4 5 show ?thesis by blast
qed

text \<open>
  C6. The text \<^verbatim>\<open>0\<close> gives the single lexeme \<^verbatim>\<open>Number\<close> with text \<^verbatim>\<open>0\<close>. On \<^verbatim>\<open>007\<close> the
  number pattern matches the first character only, and the analyzer gives three
  \<^verbatim>\<open>Number\<close> lexemes \<^verbatim>\<open>0\<close>, \<^verbatim>\<open>0\<close>, \<^verbatim>\<open>7\<close>: no lexeme has the text \<^verbatim>\<open>007\<close>.
\<close>

theorem number_literal_policy:
  "snd (parse (new_analyzer ''0'')) = None \<and>
   kinds_texts (lexemes (fst (parse (new_analyzer ''0'')))) = [(Number, ''0'')] \<and>
   re_Number ''007'' = Some 1 \<and>
   snd (parse (new_analyzer ''007'')) = None \<and>
   kinds_texts (lexemes (fst (parse (new_analyzer ''007''))))
     = [(Number, ''0''), (Number, ''0''), (Number, ''7'')]"
  by (simp add: eval_simps kinds_texts_def)

text \<open>
  C7. The text \<^verbatim>\<open>Dim count = 0\<close> is analyzed without an exception, and the lexemes are, in
  this order, the keyword \<^verbatim>\<open>Dim\<close>, the identifier \<^verbatim>\<open>count\<close>, the assignment sign and the
  number \<^verbatim>\<open>0\<close>.
\<close>

theorem parse_Dim_count:
  "snd (parse (new_analyzer ''Dim count = 0'')) = None \<and>
   kinds_texts (lexemes (fst (parse (new_analyzer ''Dim count = 0''))))
     = [(Dim, ''Dim''), (Identifier, ''count''), (Assign, ''=''), (Number, ''0'')]"
  by (simp add: eval_simps kinds_texts_def)



text \<open>
  C9. Running the analyzer on the same source reproduces the result. In a process that
  has imported the module, a run on \<open>src\<close> returns; a second run in the process as the
  first run left it returns the same lexemes (kinds, texts, offsets and lengths, in
  order) and the same exception or none; so does a run in any other process that has
  imported the module, whatever list objects it holds; and the second run leaves the
  lexemes of the first instance as they were.
\<close>

theorem runs_reproduce:
  assumes "imported p" and "imported q"
  shows "\<exists>p1 a1 e1 p2 a2 e2 q1 b1 f1.
           run_proc p src = Some (p1, a1, e1)
         \<and> run_proc p1 src = Some (p2, a2, e2)
         \<and> run_proc q src = Some (q1, b1, f1)
         \<and> lexemes_proc p2 a2 = lexemes_proc p1 a1 \<and> e2 = e1
         \<and> lexemes_proc q1 b1 = lexemes_proc p1 a1 \<and> f1 = e1
         \<and> lexemes_proc p2 a1 = lexemes_proc p1 a1"
proof -
  from run_proc_result [OF assms(1), of src] obtain p1 a1
    where 1: "run_proc p src = Some (p1, a1, snd (parse (new_analyzer src)))"
      and l1: "lexemes_proc p1 a1 = lexemes (fst (parse (new_analyzer src)))"
      and r1: "self_lexemes a1 = length (list_objects p)"
      and i1: "imported p1"
      and n1: "length (list_objects p1) = Suc (length (list_objects p))"
    by blast
  from run_proc_result [OF i1, of src] obtain p2 a2
    where 2: "run_proc p1 src = Some (p2, a2, snd (parse (new_analyzer src)))"
      and l2: "lexemes_proc p2 a2 = lexemes (fst (parse (new_analyzer src)))"
      and f2: "\<forall>r < length (list_objects p1). list_objects p2 ! r = list_objects p1 ! r"
    by blast
  from run_proc_result [OF assms(2), of src] obtain q1 b1
    where 3: "run_proc q src = Some (q1, b1, snd (parse (new_analyzer src)))"
      and l3: "lexemes_proc q1 b1 = lexemes (fst (parse (new_analyzer src)))"
    by blast
  from f2 r1 n1 have "lexemes_proc p2 a1 = lexemes_proc p1 a1"
    by (simp add: lexemes_proc_def)
  with 1 2 3 l1 l2 l3 show ?thesis by auto
qed

text \<open>
  On \<^verbatim>\<open>Dim @\<close>, in a process with no list object yet and in one that has a list from an
  earlier run: the first run raises at offset 4 with the lexeme \<^verbatim>\<open>Dim\<close>, and so do the
  others.
\<close>

theorem runs_reproduce_witness:
  "imported \<lparr>g_static_lexeme_definitions = static_lexeme_definitions,
             g_dynamic_lexeme_definitions = dynamic_lexeme_definitions,
             g_space_chars = space_chars, list_objects = []\<rparr>
   \<and> imported \<lparr>g_static_lexeme_definitions = static_lexeme_definitions,
             g_dynamic_lexeme_definitions = dynamic_lexeme_definitions,
             g_space_chars = space_chars,
             list_objects = [[\<lparr>lexeme_type = Identifier, lexeme_value = ''x'',
                               offset_lex = 1, length_lex = 1\<rparr>]]\<rparr>
   \<and> run_proc \<lparr>g_static_lexeme_definitions = static_lexeme_definitions,
             g_dynamic_lexeme_definitions = dynamic_lexeme_definitions,
             g_space_chars = space_chars, list_objects = []\<rparr> ''Dim @''
       = Some (\<lparr>g_static_lexeme_definitions = static_lexeme_definitions,
                 g_dynamic_lexeme_definitions = dynamic_lexeme_definitions,
                 g_space_chars = space_chars,
                 list_objects = [[\<lparr>lexeme_type = Dim, lexeme_value = ''Dim'',
                                   offset_lex = 3, length_lex = 3\<rparr>]]\<rparr>,
               \<lparr>self_source = ''Dim @'', self_offset = 4, self_lexemes = 0\<rparr>,
               Some (UnknownLexemeException 4))
   \<and> (\<exists>p2 a2 e2 q1 b1 f1.
         run_proc \<lparr>g_static_lexeme_definitions = static_lexeme_definitions,
             g_dynamic_lexeme_definitions = dynamic_lexeme_definitions,
             g_space_chars = space_chars,
             list_objects = [[\<lparr>lexeme_type = Dim, lexeme_value = ''Dim'',
                               offset_lex = 3, length_lex = 3\<rparr>]]\<rparr> ''Dim @''
           = Some (p2, a2, e2)
       \<and> run_proc \<lparr>g_static_lexeme_definitions = static_lexeme_definitions,
             g_dynamic_lexeme_definitions = dynamic_lexeme_definitions,
             g_space_chars = space_chars,
             list_objects = [[\<lparr>lexeme_type = Identifier, lexeme_value = ''x'',
                               offset_lex = 1, length_lex = 1\<rparr>]]\<rparr> ''Dim @''
           = Some (q1, b1, f1)
       \<and> lexemes_proc p2 a2
           = [\<lparr>lexeme_type = Dim, lexeme_value = ''Dim'', offset_lex = 3, length_lex = 3\<rparr>]
       \<and> e2 = Some (UnknownLexemeException 4)
       \<and> lexemes_proc q1 b1
           = [\<lparr>lexeme_type = Dim, lexeme_value = ''Dim'', offset_lex = 3, length_lex = 3\<rparr>]
       \<and> f1 = Some (UnknownLexemeException 4)
       \<and> lexemes_proc p2 \<lparr>self_source = ''Dim @'', self_offset = 4, self_lexemes = 0\<rparr>
           = [\<lparr>lexeme_type = Dim, lexeme_value = ''Dim'', offset_lex = 3, length_lex = 3\<rparr>])"
proof -
  let ?p = "\<lparr>g_static_lexeme_definitions = static_lexeme_definitions,
             g_dynamic_lexeme_definitions = dynamic_lexeme_definitions,
             g_space_chars = space_chars, list_objects = []\<rparr>"
  let ?q = "\<lparr>g_static_lexeme_definitions = static_lexeme_definitions,
             g_dynamic_lexeme_definitions = dynamic_lexeme_definitions,
             g_space_chars = space_chars,
             list_objects = [[\<lparr>lexeme_type = Identifier, lexeme_value = ''x'',
                               offset_lex = 1, length_lex = 1\<rparr>]]\<rparr>"
  let ?p1 = "\<lparr>g_static_lexeme_definitions = static_lexeme_definitions,
                 g_dynamic_lexeme_definitions = dynamic_lexeme_definitions,
                 g_space_chars = space_chars,
                 list_objects = [[\<lparr>lexeme_type = Dim, lexeme_value = ''Dim'',
                                   offset_lex = 3, length_lex = 3\<rparr>]]\<rparr>"
  let ?a1 = "\<lparr>self_source = ''Dim @'', self_offset = 4, self_lexemes = 0\<rparr>"
  have ip: "imported ?p" by (simp add: imported_def)
  have iq: "imported ?q" by (simp add: imported_def)
  have 1: "run_proc ?p ''Dim @'' = Some (?p1, ?a1, Some (UnknownLexemeException 4))"
    by (simp add: eval_proc_simps)
  have l: "lexemes_proc ?p1 ?a1
      = [\<lparr>lexeme_type = Dim, lexeme_value = ''Dim'', offset_lex = 3, length_lex = 3\<rparr>]"
    by (simp add: lexemes_proc_def)
  from runs_reproduce [OF ip iq, of "''Dim @''"] 1 l ip iq show ?thesis by auto
qed

text \<open>
  C10. The offset never decreases: not when blanks are skipped, not in the static
  matcher, not in the dynamic matcher, and each of the two matchers moves it strictly
  forward when it returns a lexeme. An iteration of the loop either appends one lexeme
  and moves the offset strictly forward, or ends the run. So the loop ends on every
  source: one iteration more than there are characters from the offset to the end of
  the source are enough, and the offset at the end is not before the offset at the
  start.
\<close>

theorem offset_monotone_terminates:
  "offset a \<le> offset (skip_spaces a)
   \<and> offset a \<le> offset (fst (process_static_lexeme a))
   \<and> (snd (process_static_lexeme a) \<noteq> None
        \<longrightarrow> offset a < offset (fst (process_static_lexeme a)))
   \<and> offset a \<le> offset (fst (process_dynamic_lexeme a))
   \<and> (snd (process_dynamic_lexeme a) \<noteq> None
        \<longrightarrow> offset a < offset (fst (process_dynamic_lexeme a)))
   \<and> (\<forall>a'. parse_iteration a = Inl a'
        \<longrightarrow> offset a < offset a' \<and> (\<exists>l. lexemes a' = lexemes a @ [l]))
   \<and> (\<forall>r. parse_iteration a = Inr r \<longrightarrow> offset a \<le> offset (fst r) \<and> parse a = r)
   \<and> parse_fuel (Suc (length (source a) - offset a)) a = Some (parse a)
   \<and> offset a \<le> offset (fst (parse a))"
proof (intro conjI allI impI)
  show "offset a \<le> offset (skip_spaces a)" by (rule skip_spaces_offset)
  show "offset a \<le> offset (fst (process_static_lexeme a))" by (rule static_offset)
  show "offset a < offset (fst (process_static_lexeme a))"
    if "snd (process_static_lexeme a) \<noteq> None" using that by (rule static_offset)
  show "offset a \<le> offset (fst (process_dynamic_lexeme a))" by (rule dynamic_offset)
  show "offset a < offset (fst (process_dynamic_lexeme a))"
    if "snd (process_dynamic_lexeme a) \<noteq> None" using that by (rule dynamic_offset)
  show "offset a < offset a'" if "parse_iteration a = Inl a'" for a'
    using that by (rule parse_iteration_Inl)
  show "\<exists>l. lexemes a' = lexemes a @ [l]" if "parse_iteration a = Inl a'" for a'
    using that by (rule parse_iteration_Inl)
  show "offset a \<le> offset (fst r)" if "parse_iteration a = Inr r" for r
  proof -
    obtain a' e where r: "r = (a', e)" by (cases r)
    from parse_iteration_Inr [OF that [unfolded r]] skip_spaces_offset [of a] r
    show ?thesis by (simp split: if_splits)
  qed
  show "parse a = r" if "parse_iteration a = Inr r" for r
    using that by (subst parse_unfold) simp
  show "parse_fuel (Suc (length (source a) - offset a)) a = Some (parse a)"
    by (rule parse_fuel_enough) simp
  show "offset a \<le> offset (fst (parse a))" by (rule parse_offset)
qed

text \<open>
  On \<^verbatim>\<open>Dim x\<close>: the static matcher at offset 0, the dynamic matcher at offset 4, the
  first iteration, the last one, and the bound of six iterations.
\<close>

theorem offset_monotone_terminates_witness:
  "snd (process_static_lexeme (new_analyzer ''Dim x'')) \<noteq> None
   \<and> offset (new_analyzer ''Dim x'') < offset (fst (process_static_lexeme (new_analyzer ''Dim x'')))
   \<and> snd (process_dynamic_lexeme \<lparr>source = ''Dim x'', offset = 4, lexemes = []\<rparr>) \<noteq> None
   \<and> offset \<lparr>source = ''Dim x'', offset = 4, lexemes = []\<rparr>
       < offset (fst (process_dynamic_lexeme \<lparr>source = ''Dim x'', offset = 4, lexemes = []\<rparr>))
   \<and> parse_iteration (new_analyzer ''Dim x'') =
       Inl \<lparr>source = ''Dim x'', offset = 3,
            lexemes = [\<lparr>lexeme_type = Dim, lexeme_value = ''Dim'', offset_lex = 3, length_lex = 3\<rparr>]\<rparr>
   \<and> offset (new_analyzer ''Dim x'') < 3
   \<and> parse_iteration \<lparr>source = ''Dim x'', offset = 5, lexemes = []\<rparr> =
       Inr (\<lparr>source = ''Dim x'', offset = 5, lexemes = []\<rparr>, None)
   \<and> parse \<lparr>source = ''Dim x'', offset = 5, lexemes = []\<rparr> =
       (\<lparr>source = ''Dim x'', offset = 5, lexemes = []\<rparr>, None)
   \<and> parse_fuel (Suc (length (source (new_analyzer ''Dim x'')) - offset (new_analyzer ''Dim x'')))
        (new_analyzer ''Dim x'') = Some (parse (new_analyzer ''Dim x''))"
proof -
  let ?a = "new_analyzer ''Dim x''"
  let ?b = "\<lparr>source = ''Dim x'', offset = 4, lexemes = []\<rparr>"
  let ?c = "\<lparr>source = ''Dim x'', offset = 5, lexemes = []\<rparr>"
  let ?a1 = "\<lparr>source = ''Dim x'', offset = 3,
            lexemes = [\<lparr>lexeme_type = Dim, lexeme_value = ''Dim'', offset_lex = 3, length_lex = 3\<rparr>]\<rparr>"
  have s: "snd (process_static_lexeme ?a) \<noteq> None" by (simp add: eval_simps)
  have d: "snd (process_dynamic_lexeme ?b) \<noteq> None" by (simp add: eval_simps)
  have i: "parse_iteration ?a = Inl ?a1" by (simp add: eval_simps)
  have j: "parse_iteration ?c = Inr (?c, None)" by (simp add: eval_simps)
  from offset_monotone_terminates [of ?a] s
  have 1: "offset ?a < offset (fst (process_static_lexeme ?a))" by blast
  from offset_monotone_terminates [of ?b] d
  have 2: "offset ?b < offset (fst (process_dynamic_lexeme ?b))" by blast
  from offset_monotone_terminates [of ?a] i have 3: "offset ?a < offset ?a1" by blast
  from offset_monotone_terminates [of ?c] j have 4: "parse ?c = (?c, None)" by blast
  from offset_monotone_terminates [of ?a]
  have 5: "parse_fuel (Suc (length (source ?a) - offset ?a)) ?a = Some (parse ?a)" by blast
  from 3 have 6: "offset ?a < 3" by simp
  from s 1 d 2 i 6 j 4 5 show ?thesis by blast
qed

end
